theory Spec2Isabelle
  imports Complex_Main
begin

section \<open>The retrieval pipeline of the RAG knowledge base (TASK 3, main.py)\<close>

text \<open>
  The development follows \<^verbatim>\<open>main.py\<close> of the RAG knowledge base function by function:
  the chunker (\<^verbatim>\<open>chunk_text\<close>), the corpus reader (\<^verbatim>\<open>load_text_files\<close>), the build
  (\<^verbatim>\<open>build_index\<close>), the loader (\<^verbatim>\<open>load_index\<close>) and the query (\<^verbatim>\<open>query_index\<close>).

  Conventions.
  \<^item> A Python \<^verbatim>\<open>str\<close> is a \<^typ>\<open>string\<close>; a \<^typ>\<open>char\<close> stands for one code point
    (HOL has 256 of them, read as the code points 0 to 255).
  \<^item> A Python \<^verbatim>\<open>int\<close> is an \<^typ>\<open>int\<close>; the counter of \<^verbatim>\<open>enumerate\<close>, which starts at 0
    and only grows, is a \<^typ>\<open>nat\<close>.
  \<^item> A computation that may run forever returns an \<^typ>\<open>'a option\<close>, with \<^term>\<open>None\<close> for
    "does not return".
  \<^item> A raised exception is the \<^term>\<open>Inl\<close> of a sum.
\<close>

subsection \<open>Strings: \<^verbatim>\<open>str.split()\<close>, \<^verbatim>\<open>" ".join\<close> and slices\<close>

text \<open>
  The characters that \<^verbatim>\<open>str.split()\<close> (no separator) treats as whitespace, among the code
  points below 256: TAB to CR, FS to US, the space, NEL (0x85) and NBSP (0xA0).
\<close>

definition isspace :: "char \<Rightarrow> bool" where
  "isspace c =
     (let n = (of_char c :: nat)
      in (9 \<le> n \<and> n \<le> 13) \<or> (28 \<le> n \<and> n \<le> 32) \<or> n = 133 \<or> n = 160)"

text \<open>
  \<^verbatim>\<open>text.split()\<close>: runs of whitespace separate the tokens, and there is no empty token
  at either end. \<open>split_from cur cs\<close> scans \<open>cs\<close> with the token read so far in \<open>cur\<close>.
\<close>

fun split_from :: "string \<Rightarrow> string \<Rightarrow> string list" where
  "split_from cur [] = (if cur = [] then [] else [cur])"
| "split_from cur (c # cs) =
     (if isspace c
      then (if cur = [] then split_from [] cs else cur # split_from [] cs)
      else split_from (cur @ [c]) cs)"

definition str_split :: "string \<Rightarrow> string list" where
  "str_split text = split_from [] text"

text \<open>\<^verbatim>\<open>sep.join(xs)\<close>.\<close>

fun str_join :: "string \<Rightarrow> string list \<Rightarrow> string" where
  "str_join sep [] = []"
| "str_join sep [x] = x"
| "str_join sep (x # y # ys) = x @ sep @ str_join sep (y # ys)"

text \<open>
  A slice bound of Python: a negative bound counts from the end, and the result is clipped
  to \<open>0 .. n\<close>.
\<close>

definition slice_bound :: "int \<Rightarrow> int \<Rightarrow> int" where
  "slice_bound n i =
     (let j = (if i < 0 then i + n else i)
      in if j < 0 then 0 else if n < j then n else j)"

text \<open>\<^verbatim>\<open>xs[start:stop]\<close>; it never raises.\<close>

definition py_slice :: "'a list \<Rightarrow> int \<Rightarrow> int \<Rightarrow> 'a list" where
  "py_slice xs start stop =
     (let n = int (length xs); lo = slice_bound n start; hi = slice_bound n stop
      in take (nat (hi - lo)) (drop (nat lo) xs))"

subsection \<open>The chunker: \<^verbatim>\<open>chunk_text\<close>\<close>

text \<open>
  \<^verbatim>\<open>
  def chunk_text(text, chunk_size=400, overlap=50):
      tokens = text.split()
      chunks = []
      i = 0
      while i < len(tokens):
          chunk = tokens[i : i + chunk_size]
          chunks.append(" ".join(chunk))
          i += chunk_size - overlap
      return chunks
  \<close>
  The loop has no bound of its own, so it is a partial function: \<^term>\<open>None\<close> is a loop
  that never ends.
\<close>

partial_function (option) chunk_loop ::
  "string list \<Rightarrow> int \<Rightarrow> int \<Rightarrow> int \<Rightarrow> string list \<Rightarrow> string list option" where
  "chunk_loop tokens chunk_size overlap i chunks =
     (if i < int (length tokens)
      then chunk_loop tokens chunk_size overlap (i + (chunk_size - overlap))
             (chunks @ [str_join '' '' (py_slice tokens i (i + chunk_size))])
      else Some chunks)"

definition chunk_text :: "string \<Rightarrow> int \<Rightarrow> int \<Rightarrow> string list option" where
  "chunk_text text chunk_size overlap = chunk_loop (str_split text) chunk_size overlap 0 []"

subsection \<open>The corpus reader: \<^verbatim>\<open>load_text_files\<close>\<close>

text \<open>A document is the dict \<^verbatim>\<open>{"path": path, "text": text}\<close>.\<close>

record document =
  path :: string
  doc_text :: string

text \<open>\<^verbatim>\<open>os.path.basename\<close>: what follows the last slash.\<close>

definition basename :: "string \<Rightarrow> string" where
  "basename p = rev (takeWhile (\<lambda>c. c \<noteq> CHR ''/'') (rev p))"

text \<open>\<^verbatim>\<open>s.endswith(suf)\<close>.\<close>

definition endswith :: "string \<Rightarrow> string \<Rightarrow> bool" where
  "endswith s suf = (length suf \<le> length s \<and> drop (length s - length suf) s = suf)"

text \<open>
  Whether \<^verbatim>\<open>glob.glob(os.path.join(doc_dir, "*" + ext))\<close> lists the file at path \<open>p\<close> of
  the folder: its name ends with the extension, and it is not a hidden file, which the
  star of \<^verbatim>\<open>glob\<close> does not match.
\<close>

definition glob_ext :: "string \<Rightarrow> string \<Rightarrow> bool" where
  "glob_ext ext p =
     (let name = basename p
      in name \<noteq> [] \<and> hd name \<noteq> CHR ''.'' \<and> endswith name ext)"

text \<open>
  \<^verbatim>\<open>
  def load_text_files(doc_dir):
      files = []
      for ext in ("*.txt", "*.md"):
          for path in glob.glob(os.path.join(doc_dir, ext)):
              with open(path, "r", encoding="utf-8") as f:
                  text = f.read()
              files.append({"path": path, "text": text})
      return files
  \<close>
  The folder is given as the list of its regular files, each with its path and its
  decoded text, in the order in which \<^verbatim>\<open>glob\<close> lists them.
\<close>

definition load_text_files :: "(string \<times> string) list \<Rightarrow> document list" where
  "load_text_files dir_files =
     concat (map (\<lambda>ext. map (\<lambda>(p, t). \<lparr>path = p, doc_text = t\<rparr>)
                              (filter (\<lambda>(p, t). glob_ext ext p) dir_files))
                 [''.txt'', ''.md''])"

subsection \<open>The persisted state\<close>

text \<open>
  A flat inner-product index of \<^verbatim>\<open>faiss\<close>: its dimension and its rows. Floating-point
  numbers stand as reals; the development passes them on and never computes with them.
\<close>

record faiss_index =
  index_d :: nat
  index_xb :: "real list list"

definition ntotal :: "faiss_index \<Rightarrow> nat" where
  "ntotal index = length (index_xb index)"

text \<open>
  One record of \<^verbatim>\<open>meta\<close>: the dict with the keys \<^verbatim>\<open>source\<close>, \<^verbatim>\<open>chunk_idx\<close> and \<^verbatim>\<open>text\<close>
  (the field \<open>meta_text\<close>).
\<close>

record chunk_meta =
  source :: string
  chunk_idx :: nat
  meta_text :: string

text \<open>
  What the program reads and writes on disk: the folder \<^verbatim>\<open>DOCS_DIR\<close> (\<^term>\<open>None\<close> when it
  does not exist), the file \<^verbatim>\<open>INDEX_FILE\<close> and the file \<^verbatim>\<open>META_FILE\<close> (\<^term>\<open>None\<close> when the
  file does not exist). A file holds the value that was written to it:
  \<^verbatim>\<open>faiss.write_index\<close>/\<^verbatim>\<open>read_index\<close> and \<^verbatim>\<open>pickle.dump\<close>/\<^verbatim>\<open>load\<close> are taken to be faithful.
\<close>

record disk =
  docs_dir :: "(string \<times> string) list option"
  index_file :: "faiss_index option"
  meta_file :: "chunk_meta list option"

text \<open>
  The exceptions the pipeline raises:
  \<^item> \<open>DocsFolderNotFound\<close>: \<^verbatim>\<open>FileNotFoundError("Docs folder not found: ...")\<close>;
  \<^item> \<open>NoTextChunks\<close>: \<^verbatim>\<open>ValueError("No text chunks found in docs. ...")\<close>;
  \<^item> \<open>VstackShapeMismatch\<close>: the \<^verbatim>\<open>ValueError\<close> of \<^verbatim>\<open>np.vstack\<close> on rows of different lengths;
  \<^item> \<open>IndexOrMetaNotFound\<close>: \<^verbatim>\<open>FileNotFoundError("Index or meta not found. Run rebuild first.")\<close>;
  \<^item> \<open>MetaIndexError\<close>: the \<^verbatim>\<open>IndexError\<close> of \<^verbatim>\<open>meta[idx]\<close>.
\<close>

datatype error =
    DocsFolderNotFound
  | NoTextChunks
  | VstackShapeMismatch
  | IndexOrMetaNotFound
  | MetaIndexError

subsection \<open>The build: \<^verbatim>\<open>build_index\<close>\<close>

text \<open>
  The body of the inner loop appends the embedding of the chunk and this dict:
  \<^verbatim>\<open>{"source": os.path.basename(doc["path"]), "chunk_idx": idx, "text": chunk[:600]}\<close>.
\<close>

definition entry_meta :: "document \<Rightarrow> nat \<Rightarrow> string \<Rightarrow> chunk_meta" where
  "entry_meta doc idx chunk =
     \<lparr>source = basename (path doc), chunk_idx = idx, meta_text = take 600 chunk\<rparr>"

text \<open>
  \<^verbatim>\<open>
  for idx, chunk in enumerate(chunks):
      emb = model.encode(chunk, show_progress_bar=False)
      embeddings.append(emb)
      meta.append({...})
  \<close>
  The embedding model is the parameter \<open>encode\<close>.
\<close>

fun add_chunks ::
  "(string \<Rightarrow> real list) \<Rightarrow> document \<Rightarrow> nat \<Rightarrow> string list \<Rightarrow>
     real list list \<times> chunk_meta list \<Rightarrow> real list list \<times> chunk_meta list" where
  "add_chunks encode doc idx [] (embeddings, meta) = (embeddings, meta)"
| "add_chunks encode doc idx (chunk # chunks) (embeddings, meta) =
     add_chunks encode doc (Suc idx) chunks
       (embeddings @ [encode chunk], meta @ [entry_meta doc idx chunk])"

text \<open>
  \<^verbatim>\<open>
  for doc in docs:
      chunks = chunk_text(doc["text"], chunk_size=300, overlap=50)
      for idx, chunk in enumerate(chunks): ...
  \<close>
\<close>

fun add_docs ::
  "(string \<Rightarrow> real list) \<Rightarrow> document list \<Rightarrow>
     real list list \<times> chunk_meta list \<Rightarrow> (real list list \<times> chunk_meta list) option" where
  "add_docs encode [] acc = Some acc"
| "add_docs encode (doc # docs) acc =
     (case chunk_text (doc_text doc) 300 50 of
        None \<Rightarrow> None
      | Some chunks \<Rightarrow> add_docs encode docs (add_chunks encode doc 0 chunks acc))"

text \<open>\<^verbatim>\<open>np.vstack(embeddings)\<close> on a non-empty list: the rows must have one length.\<close>

definition vstack :: "real list list \<Rightarrow> error + real list list" where
  "vstack embeddings =
     (if list_all (\<lambda>v. length v = length (hd embeddings)) embeddings
      then Inr embeddings else Inl VstackShapeMismatch)"

text \<open>The dict that \<^verbatim>\<open>build_index\<close> returns.\<close>

record build_info =
  vectors :: nat
  dim :: nat

text \<open>
  \<^verbatim>\<open>
  def build_index(model_name=EMB_MODEL_NAME):
      model = SentenceTransformer(model_name)
      if not os.path.exists(DOCS_DIR):
          raise FileNotFoundError(f"Docs folder not found: {DOCS_DIR}")
      docs = load_text_files(DOCS_DIR)
      meta = []
      embeddings = []
      for doc in docs: ...
      if not embeddings:
          raise ValueError("No text chunks found in docs. Add .txt or .md files to ./docs")
      xb = np.vstack(embeddings).astype("float32")
      dim = xb.shape[1]
      index = faiss.IndexFlatIP(dim)
      faiss.normalize_L2(xb)
      index.add(xb)
      faiss.write_index(index, INDEX_FILE)
      with open(META_FILE, "wb") as f:
          pickle.dump(meta, f)
      return {"vectors": xb.shape[0], "dim": dim}
  \<close>
  The index that is in memory when the two files are written comes first, as
  \<open>build_memory\<close>; \<open>build_index\<close> writes it. The row-wise \<^verbatim>\<open>faiss.normalize_L2\<close> is
  the parameter \<open>normalize_L2\<close>. The result is the disk after the call together with
  the returned dict or the raised exception; \<^term>\<open>None\<close> is a build that never returns.
\<close>

definition build_memory ::
  "(string \<Rightarrow> real list) \<Rightarrow> (real list \<Rightarrow> real list) \<Rightarrow> (string \<times> string) list \<Rightarrow>
     (error + faiss_index \<times> chunk_meta list) option" where
  "build_memory encode normalize_L2 dir_files =
     (case add_docs encode (load_text_files dir_files) ([], []) of
        None \<Rightarrow> None
      | Some (embeddings, meta) \<Rightarrow>
          if embeddings = [] then Some (Inl NoTextChunks)
          else (case vstack embeddings of
                  Inl e \<Rightarrow> Some (Inl e)
                | Inr rows \<Rightarrow>
                    Some (Inr (\<lparr>index_d = length (hd rows),
                                index_xb = map normalize_L2 rows\<rparr>, meta))))"

definition build_index ::
  "(string \<Rightarrow> real list) \<Rightarrow> (real list \<Rightarrow> real list) \<Rightarrow> disk \<Rightarrow>
     (disk \<times> (error + build_info)) option" where
  "build_index encode normalize_L2 fs =
     (case docs_dir fs of
        None \<Rightarrow> Some (fs, Inl DocsFolderNotFound)
      | Some dir_files \<Rightarrow>
          (case build_memory encode normalize_L2 dir_files of
             None \<Rightarrow> None
           | Some (Inl e) \<Rightarrow> Some (fs, Inl e)
           | Some (Inr (index, meta)) \<Rightarrow>
               Some (fs\<lparr>index_file := Some index, meta_file := Some meta\<rparr>,
                     Inr \<lparr>vectors = length (index_xb index), dim = index_d index\<rparr>)))"

subsection \<open>The loader: \<^verbatim>\<open>load_index\<close>\<close>

text \<open>
  \<^verbatim>\<open>
  def load_index():
      if not os.path.exists(INDEX_FILE) or not os.path.exists(META_FILE):
          raise FileNotFoundError("Index or meta not found. Run rebuild first.")
      index = faiss.read_index(INDEX_FILE)
      with open(META_FILE, "rb") as f:
          meta = pickle.load(f)
      return index, meta
  \<close>
\<close>

definition load_index :: "disk \<Rightarrow> error + faiss_index \<times> chunk_meta list" where
  "load_index fs =
     (case (index_file fs, meta_file fs) of
        (Some index, Some meta) \<Rightarrow> Inr (index, meta)
      | _ \<Rightarrow> Inl IndexOrMetaNotFound)"

subsection \<open>The query: \<^verbatim>\<open>query_index\<close>\<close>

text \<open>One result: the three keys of the metadata record and \<^verbatim>\<open>score\<close>.\<close>

record search_result = chunk_meta +
  score :: real

text \<open>
  \<^verbatim>\<open>
  for score, idx in zip(D[0], I[0]):
      if idx < 0:
          continue
      results.append({"score": float(score), "source": meta[idx]["source"],
                      "chunk_idx": meta[idx]["chunk_idx"], "text": meta[idx]["text"]})
  \<close>
  \<^verbatim>\<open>meta[idx]\<close> raises \<^verbatim>\<open>IndexError\<close> when \<open>idx\<close> is not below \<^verbatim>\<open>len(meta)\<close>.
\<close>

fun collect_results ::
  "chunk_meta list \<Rightarrow> (real \<times> int) list \<Rightarrow> search_result list \<Rightarrow> error + search_result list" where
  "collect_results meta [] results = Inr results"
| "collect_results meta ((s, idx) # rest) results =
     (if idx < 0 then collect_results meta rest results
      else if idx < int (length meta)
        then collect_results meta rest
               (results @ [\<lparr>source = source (meta ! nat idx),
                             chunk_idx = chunk_idx (meta ! nat idx),
                             meta_text = meta_text (meta ! nat idx),
                             score = s\<rparr>])
        else Inl MetaIndexError)"

text \<open>
  \<^verbatim>\<open>
  def safe_detect_lang(text):
      try:
          return detect(text)
      except Exception:
          return "unknown"
  \<close>
  The detector is the parameter \<open>detect\<close>, \<^term>\<open>None\<close> when it raises.
\<close>

definition safe_detect_lang :: "(string \<Rightarrow> string option) \<Rightarrow> string \<Rightarrow> string" where
  "safe_detect_lang detect t = (case detect t of None \<Rightarrow> ''unknown'' | Some l \<Rightarrow> l)"

text \<open>The dict that \<^verbatim>\<open>query_index\<close> returns.\<close>

record query_response =
  query :: string
  lang :: string
  results :: "search_result list"

text \<open>
  \<^verbatim>\<open>
  def query_index(query, k=3, model_name=EMB_MODEL_NAME):
      model = SentenceTransformer(model_name)
      index, meta = load_index()
      q_emb = model.encode(query).astype("float32")
      faiss.normalize_L2(q_emb.reshape(1, -1))
      D, I = index.search(q_emb.reshape(1, -1), k)
      results = []
      for score, idx in zip(D[0], I[0]): ...
      return {"query": query, "lang": safe_detect_lang(query), "results": results}
  \<close>
  The index engine is the parameter \<open>search\<close>: \<open>search index q k\<close> is the pair of the
  rows \<^verbatim>\<open>D[0]\<close> and \<^verbatim>\<open>I[0]\<close> of \<^verbatim>\<open>index.search\<close>.
\<close>

definition query_index ::
  "(string \<Rightarrow> real list) \<Rightarrow> (real list \<Rightarrow> real list) \<Rightarrow>
   (faiss_index \<Rightarrow> real list \<Rightarrow> int \<Rightarrow> real list \<times> int list) \<Rightarrow>
   (string \<Rightarrow> string option) \<Rightarrow> disk \<Rightarrow> string \<Rightarrow> int \<Rightarrow> error + query_response" where
  "query_index encode normalize_L2 search detect fs q k =
     (case load_index fs of
        Inl e \<Rightarrow> Inl e
      | Inr (index, meta) \<Rightarrow>
          (case search index (normalize_L2 (encode q)) k of
             (D, I) \<Rightarrow>
               (case collect_results meta (zip D I) [] of
                  Inl e \<Rightarrow> Inl e
                | Inr rs \<Rightarrow>
                    Inr \<lparr>query = q, lang = safe_detect_lang detect q, results = rs\<rparr>)))"

section \<open>Properties of the chunker\<close>

subsection \<open>Tokens and joins\<close>

lemma split_from_token:
  "t \<in> set (split_from cur cs) \<Longrightarrow> \<forall>c\<in>set cur. \<not> isspace c \<Longrightarrow>
     t \<noteq> [] \<and> (\<forall>c\<in>set t. \<not> isspace c)"
proof (induction cur cs rule: split_from.induct)
  case (1 cur)
  then show ?case by (cases "cur = []") simp_all
next
  case (2 cur c cs)
  show ?case
  proof (cases "isspace c")
    case False
    from "2.prems"(1) False have "t \<in> set (split_from (cur @ [c]) cs)" by simp
    moreover from "2.prems"(2) False have "\<forall>x\<in>set (cur @ [c]). \<not> isspace x" by simp
    ultimately show ?thesis using "2.IH"(3) [OF False] by blast
  next
    case True
    show ?thesis
    proof (cases "cur = []")
      case True
      from "2.prems"(1) \<open>isspace c\<close> True have "t \<in> set (split_from [] cs)" by simp
      then show ?thesis using "2.IH"(1) [OF \<open>isspace c\<close> True] by simp
    next
      case False
      from "2.prems"(1) \<open>isspace c\<close> False have "t = cur \<or> t \<in> set (split_from [] cs)" by simp
      then show ?thesis
      proof
        assume "t = cur"
        with False "2.prems"(2) show ?thesis by simp
      next
        assume "t \<in> set (split_from [] cs)"
        then show ?thesis using "2.IH"(2) [OF \<open>isspace c\<close> False] by simp
      qed
    qed
  qed
qed

lemma split_from_Nil_iff:
  "split_from cur cs = [] \<longleftrightarrow> cur = [] \<and> (\<forall>c\<in>set cs. isspace c)"
  by (induction cur cs rule: split_from.induct) auto

lemma str_split_token: "t \<in> set (str_split txt) \<Longrightarrow> t \<noteq> [] \<and> (\<forall>c\<in>set t. \<not> isspace c)"
  using split_from_token [of t "[]" "txt"] by (simp add: str_split_def)

lemma str_split_Nil_iff: "str_split txt = [] \<longleftrightarrow> (\<forall>c\<in>set txt. isspace c)"
  by (simp add: str_split_def split_from_Nil_iff)

lemma str_join_nonempty: "xs \<noteq> [] \<Longrightarrow> \<forall>x\<in>set xs. x \<noteq> [] \<Longrightarrow> str_join sep xs \<noteq> []"
  by (induction sep xs rule: str_join.induct) auto

lemma split_from_token_prefix:
  "\<forall>c\<in>set t. \<not> isspace c \<Longrightarrow> split_from cur (t @ rest) = split_from (cur @ t) rest"
  by (induction t arbitrary: cur) simp_all

lemma isspace_space: "isspace CHR '' ''"
  by (simp add: isspace_def)

lemma str_split_join:
  assumes "\<forall>t\<in>set ws. t \<noteq> [] \<and> (\<forall>c\<in>set t. \<not> isspace c)"
  shows "str_split (str_join '' '' ws) = ws"
  using assms
proof (induction "'' ''" ws rule: str_join.induct)
  case 1
  show ?case by (simp add: str_split_def)
next
  case (2 x)
  then have "split_from [] (x @ []) = split_from ([] @ x) []"
    by (intro split_from_token_prefix) simp
  with 2 show ?case by (simp add: str_split_def)
next
  case (3 x y ys)
  from 3(2) have x: "x \<noteq> []" "\<forall>c\<in>set x. \<not> isspace c" by simp_all
  from 3(2) have "str_split (str_join '' '' (y # ys)) = y # ys"
    by (intro 3(1)) simp
  moreover have "split_from [] (x @ '' '' @ str_join '' '' (y # ys)) =
        split_from ([] @ x) ('' '' @ str_join '' '' (y # ys))"
    using x(2) by (rule split_from_token_prefix)
  ultimately show ?case
    using x(1) isspace_space by (simp add: str_split_def)
qed

subsection \<open>Slices and window arithmetic\<close>

lemma py_slice_window:
  assumes "0 \<le> a" "0 \<le> c"
  shows "py_slice xs a (a + c) = take (nat c) (drop (nat a) xs)"
proof (cases "a \<le> int (length xs)")
  case True
  show ?thesis
  proof (cases "a + c \<le> int (length xs)")
    case True
    with assms \<open>a \<le> int (length xs)\<close> show ?thesis
      by (simp add: py_slice_def slice_bound_def Let_def)
  next
    case False
    with assms True have "py_slice xs a (a + c) = drop (nat a) xs"
      by (simp add: py_slice_def slice_bound_def Let_def)
    moreover from False assms have "length (drop (nat a) xs) \<le> nat c" by simp
    ultimately show ?thesis by simp
  qed
next
  case False
  with assms show ?thesis
    by (simp add: py_slice_def slice_bound_def Let_def)
qed

lemma window_count:
  fixes N s :: nat
  assumes "0 < s"
  shows "nat ((int N - 0 + int s - 1) div int s) = (N + s - 1) div s"
proof -
  have "int N - 0 + int s - 1 = int (N + s - 1)" using assms by simp
  then show ?thesis by (simp only: zdiv_int [symmetric] nat_int)
qed

lemma window_start_in_range:
  fixes N s j :: nat
  assumes "0 < s" "j < (N + s - 1) div s"
  shows "j * s < N"
proof (rule ccontr)
  assume "\<not> j * s < N"
  then have "N + s - 1 < j * s + s" using assms(1) by simp
  then have "N + s - 1 < (j + 1) * s" by simp
  then have "(N + s - 1) div s < j + 1"
    using assms(1) by (simp add: less_mult_imp_div_less)
  with assms(2) show False by simp
qed

lemma window_cover:
  fixes N s t :: nat
  assumes "0 < s" "t < N"
  shows "t div s < (N + s - 1) div s \<and> (t div s) * s \<le> t \<and> t < (t div s) * s + s"
proof -
  have "t + s \<le> N + s - 1" using assms by simp
  then have "(t + s) div s \<le> (N + s - 1) div s" by (rule div_le_mono)
  moreover have "(t + s) div s = t div s + 1" using assms(1) by simp
  ultimately have "t div s < (N + s - 1) div s" by simp
  moreover have "(t div s) * s \<le> t" by simp
  moreover have "t < (t div s) * s + s"
    using assms(1) dividend_less_div_times [of s t] by (simp add: mult.commute)
  ultimately show ?thesis by simp
qed

subsection \<open>The loop of the chunker\<close>

text \<open>With a step that is not positive, the loop never ends once it is entered.\<close>

lemma chunk_loop_diverges_aux:
  assumes "chunk_loop tokens chunk_size overlap i chunks = Some y"
  shows "\<not> (chunk_size \<le> overlap \<and> i < int (length tokens))"
proof (rule chunk_loop.raw_induct
    [where P = "\<lambda>ts cs ov j acc r. \<not> (cs \<le> ov \<and> j < int (length ts))", OF _ assms])
  fix f :: "string list \<Rightarrow> int \<Rightarrow> int \<Rightarrow> int \<Rightarrow> string list \<Rightarrow> string list option"
  fix ts :: "string list" and cs ov j :: int and acc r :: "string list"
  assume IH: "\<And>ts cs ov j acc r. f ts cs ov j acc = Some r \<Longrightarrow> \<not> (cs \<le> ov \<and> j < int (length ts))"
  assume body: "(if j < int (length ts)
      then f ts cs ov (j + (cs - ov)) (acc @ [str_join '' '' (py_slice ts j (j + cs))])
      else Some acc) = Some r"
  show "\<not> (cs \<le> ov \<and> j < int (length ts))"
  proof
    assume a: "cs \<le> ov \<and> j < int (length ts)"
    with body have "f ts cs ov (j + (cs - ov)) (acc @ [str_join '' '' (py_slice ts j (j + cs))]) = Some r"
      by simp
    from IH [OF this] a show False by simp
  qed
qed

lemma chunk_loop_diverges:
  "chunk_size \<le> overlap \<Longrightarrow> i < int (length tokens) \<Longrightarrow>
     chunk_loop tokens chunk_size overlap i chunks = None"
  using chunk_loop_diverges_aux [of tokens chunk_size overlap i chunks]
  by (cases "chunk_loop tokens chunk_size overlap i chunks") auto

text \<open>With a positive step the loop ends, and this is what it returns.\<close>

lemma chunk_loop_returns:
  assumes "overlap < chunk_size"
  shows "chunk_loop tokens chunk_size overlap i chunks =
     Some (chunks @ map (\<lambda>j. str_join '' '' (py_slice tokens (i + int j * (chunk_size - overlap))
                                   (i + int j * (chunk_size - overlap) + chunk_size)))
                     [0..<nat ((int (length tokens) - i + (chunk_size - overlap) - 1) div (chunk_size - overlap))])"
proof (induction "nat (int (length tokens) - i)" arbitrary: i chunks rule: less_induct)
  case less
  define step where "step = chunk_size - overlap"
  have sp: "0 < step" using assms by (simp add: step_def)
  let ?N = "int (length tokens)"
  show ?case
  proof (cases "i < ?N")
    case False
    then have "?N - i + step - 1 < step" by simp
    then have "(?N - i + step - 1) div step \<le> (step - 1) div step"
      using sp by (intro zdiv_mono1) simp_all
    also have "(step - 1) div step = 0"
      using sp by simp
    finally have "(?N - i + step - 1) div step \<le> 0" .
    then have "nat ((?N - i + step - 1) div step) = 0" by simp
    with False show ?thesis
      by (subst chunk_loop.simps) (simp add: step_def)
  next
    case True
    have m: "nat (?N - (i + step)) < nat (?N - i)" using True sp by simp
    define r where "r = ?N - i - 1"
    have r0: "0 \<le> r" using True by (simp add: r_def)
    have e1: "?N - i + step - 1 = r + step" by (simp add: r_def)
    have e2: "?N - (i + step) + step - 1 = r" by (simp add: r_def)
    have "(r + step) div step = r div step + 1" using sp by simp
    moreover have "0 \<le> r div step" using r0 sp by (simp add: pos_imp_zdiv_nonneg_iff)
    ultimately have n: "nat ((?N - i + step - 1) div step) = Suc (nat ((?N - (i + step) + step - 1) div step))"
      unfolding e1 e2 by simp
    have ih: "chunk_loop tokens chunk_size overlap (i + step)
                (chunks @ [str_join '' '' (py_slice tokens i (i + chunk_size))]) =
          Some ((chunks @ [str_join '' '' (py_slice tokens i (i + chunk_size))]) @
             map (\<lambda>j. str_join '' '' (py_slice tokens (i + step + int j * step)
                                   (i + step + int j * step + chunk_size)))
                     [0..<nat ((?N - (i + step) + step - 1) div step)])"
      using less [of "i + step"] m unfolding step_def by simp
    have "chunk_loop tokens chunk_size overlap i chunks =
       chunk_loop tokens chunk_size overlap (i + step)
                (chunks @ [str_join '' '' (py_slice tokens i (i + chunk_size))])"
      using True by (subst chunk_loop.simps) (simp add: step_def)
    also note ih
    finally show ?thesis
      unfolding step_def [symmetric] n map_upt_Suc
      by (simp add: algebra_simps)
  qed
qed

subsection \<open>What the chunker returns\<close>

lemma chunk_text_returns:
  assumes "0 < chunk_size" "0 \<le> overlap" "overlap < chunk_size"
  shows "chunk_text txt chunk_size overlap =
     Some (map (\<lambda>j. str_join '' '' (take (nat chunk_size)
                        (drop (j * nat (chunk_size - overlap)) (str_split txt))))
               [0..<(length (str_split txt) + nat (chunk_size - overlap) - 1)
                      div nat (chunk_size - overlap)])"
proof -
  define s where "s = nat (chunk_size - overlap)"
  have s: "0 < s" "chunk_size - overlap = int s" using assms by (simp_all add: s_def)
  have w: "py_slice (str_split txt) (0 + int j * int s) (0 + int j * int s + chunk_size) =
        take (nat chunk_size) (drop (j * s) (str_split txt))" for j
    using py_slice_window [of "int (j * s)" chunk_size "str_split txt"] assms(1)
    by (simp add: nat_mult_distrib)
  have "chunk_text txt chunk_size overlap =
      Some ([] @ map (\<lambda>j. str_join '' '' (py_slice (str_split txt) (0 + int j * int s)
                                   (0 + int j * int s + chunk_size)))
                     [0..<nat ((int (length (str_split txt)) - 0 + int s - 1) div int s)])"
    unfolding chunk_text_def using chunk_loop_returns [OF assms(3), of "str_split txt" 0 "[]"]
    by (simp only: s(2))
  then have "chunk_text txt chunk_size overlap =
      Some (map (\<lambda>j. str_join '' '' (take (nat chunk_size) (drop (j * s) (str_split txt))))
                [0..<(length (str_split txt) + s - 1) div s])"
    by (simp only: w window_count [OF s(1)] append_Nil)
  then show ?thesis by (simp only: s_def)
qed

lemma window_tokens:
  assumes "0 < c" "k < length (str_split txt)"
  shows "take c (drop k (str_split txt)) \<noteq> []"
    and "hd (take c (drop k (str_split txt))) = str_split txt ! k"
    and "str_join '' '' (take c (drop k (str_split txt))) \<noteq> []"
    and "str_split (str_join '' '' (take c (drop k (str_split txt)))) = take c (drop k (str_split txt))"
proof -
  let ?w = "take c (drop k (str_split txt))"
  show ne: "?w \<noteq> []" using assms by simp
  show "hd ?w = str_split txt ! k"
    using assms by (simp add: hd_drop_conv_nth)
  have sub: "set ?w \<subseteq> set (str_split txt)"
    by (meson set_take_subset set_drop_subset subset_trans)
  then have tok: "\<forall>t\<in>set ?w. t \<noteq> [] \<and> (\<forall>c\<in>set t. \<not> isspace c)"
    using str_split_token by blast
  then show "str_join '' '' ?w \<noteq> []" using ne by (intro str_join_nonempty) auto
  from tok show "str_split (str_join '' '' ?w) = ?w" by (rule str_split_join)
qed

lemma window_count_reaches:
  fixes N s :: nat
  assumes "0 < s"
  shows "N \<le> ((N + s - 1) div s) * s"
proof -
  have "N + s - 1 < ((N + s - 1) div s) * s + s"
    using assms dividend_less_div_times [of s "N + s - 1"] by (simp add: mult.commute)
  then show ?thesis using assms by simp
qed

lemma hello_world_chunk: "chunk_text ''hello world'' 300 50 = Some [''hello world'']"
  by (simp add: chunk_text_def str_split_def isspace_def chunk_loop.simps py_slice_def slice_bound_def)

text \<open>
  Claim C1, as the code has it. The chunker does not compare \<open>overlap\<close> with
  \<open>chunk_size\<close> and raises nothing. When \<open>overlap\<close> is at least \<open>chunk_size\<close>, a text
  without tokens gives the empty list of chunks, and on a text with at least one token
  the loop never ends, so the call does not return.
\<close>

theorem chunk_text_overlap_ge_size:
  assumes "chunk_size \<le> overlap"
  shows "chunk_text txt chunk_size overlap = (if str_split txt = [] then Some [] else None)"
proof (cases "str_split txt = []")
  case True
  then show ?thesis
    unfolding chunk_text_def by (subst chunk_loop.simps) simp
next
  case False
  then have "0 < int (length (str_split txt))" by simp
  with assms have "chunk_loop (str_split txt) chunk_size overlap 0 [] = None"
    by (rule chunk_loop_diverges)
  with False show ?thesis by (simp add: chunk_text_def)
qed

theorem chunk_text_overlap_ge_size_witness:
  "(50::int) \<le> 50 \<and> chunk_text ''hello world'' 50 50 = None \<and> chunk_text ''   '' 50 50 = Some []"
  using chunk_text_overlap_ge_size [of 50 50 "''hello world''"]
    chunk_text_overlap_ge_size [of 50 50 "''   ''"]
  by (simp add: str_split_def isspace_def)

text \<open>
  Claim C1 as it is written asks for a rejection with a configuration error and for a call
  that never hangs. With \<open>chunk_size = overlap = 300\<close> the call on a text of two tokens
  does not return, and the call on the empty text returns the empty list, with no error.
\<close>

theorem chunk_text_no_rejection_counterexample:
  "chunk_text ''hello world'' 300 300 = None \<and> chunk_text [] 300 300 = Some []"
proof
  have "chunk_loop (str_split ''hello world'') 300 300 0 [] = None"
    by (rule chunk_loop_diverges) (simp_all add: str_split_def isspace_def)
  then show "chunk_text ''hello world'' 300 300 = None" by (simp add: chunk_text_def)
  show "chunk_text [] 300 300 = Some []"
    unfolding chunk_text_def by (subst chunk_loop.simps) (simp add: str_split_def)
qed

text \<open>
  Claim C2. For a positive \<open>chunk_size\<close> and \<open>0 \<le> overlap < chunk_size\<close>, the chunker
  returns, and with \<open>step = chunk_size - overlap\<close> and \<open>n\<close> the number of starts
  \<open>0, step, 2 * step, ...\<close> below the token count:
  \<^item> the chunks are the \<open>n\<close> windows of at most \<open>chunk_size\<close> consecutive tokens that start
    at \<open>j * step\<close>, each joined with single spaces;
  \<^item> every start is below the token count, the first token of window \<open>j\<close> is token
    \<open>j * step\<close>, every chunk is non-empty, and splitting a chunk gives its window back;
  \<^item> the starts go on until the token count is reached (\<open>n * step\<close> is not below it),
    so the last, partial window is emitted;
  \<^item> every token lies in some window;
  \<^item> the text "hello world" with \<open>chunk_size = 300\<close> and \<open>overlap = 50\<close> gives the one
    chunk "hello world".
\<close>

theorem chunk_text_windows:
  assumes "0 < chunk_size" "0 \<le> overlap" "overlap < chunk_size"
  shows "let tokens = str_split txt;
             step = nat (chunk_size - overlap);
             n = (length tokens + step - 1) div step;
             window = (\<lambda>j. take (nat chunk_size) (drop (j * step) tokens))
         in chunk_text txt chunk_size overlap = Some (map (\<lambda>j. str_join '' '' (window j)) [0..<n])
          \<and> (\<forall>j<n. j * step < length tokens \<and> hd (window j) = tokens ! (j * step)
                   \<and> str_join '' '' (window j) \<noteq> []
                   \<and> str_split (str_join '' '' (window j)) = window j)
          \<and> length tokens \<le> n * step
          \<and> (\<forall>t<length tokens. \<exists>j<n. j * step \<le> t \<and> t < j * step + nat chunk_size)
          \<and> chunk_text ''hello world'' 300 50 = Some [''hello world'']"
proof -
  define tokens where "tokens = str_split txt"
  define step where "step = nat (chunk_size - overlap)"
  define n where "n = (length tokens + step - 1) div step"
  have sp: "0 < step" and sc: "step \<le> nat chunk_size" and c: "0 < nat chunk_size"
    using assms by (simp_all add: step_def)
  have ret: "chunk_text txt chunk_size overlap =
      Some (map (\<lambda>j. str_join '' '' (take (nat chunk_size) (drop (j * step) tokens))) [0..<n])"
    unfolding tokens_def step_def n_def using assms by (rule chunk_text_returns)
  have win: "j * step < length tokens \<and>
        hd (take (nat chunk_size) (drop (j * step) tokens)) = tokens ! (j * step) \<and>
        str_join '' '' (take (nat chunk_size) (drop (j * step) tokens)) \<noteq> [] \<and>
        str_split (str_join '' '' (take (nat chunk_size) (drop (j * step) tokens))) =
          take (nat chunk_size) (drop (j * step) tokens)" if "j < n" for j
  proof -
    from that have "j * step < length tokens"
      unfolding n_def using sp by (intro window_start_in_range)
    then show ?thesis
      unfolding tokens_def using window_tokens [OF c, of "j * step" "txt"] by simp
  qed
  have reach: "length tokens \<le> n * step"
    unfolding n_def using sp by (rule window_count_reaches)
  have cover: "\<exists>j<n. j * step \<le> t \<and> t < j * step + nat chunk_size" if "t < length tokens" for t
  proof -
    from window_cover [OF sp that]
    have "t div step < n" "(t div step) * step \<le> t" "t < (t div step) * step + step"
      by (simp_all add: n_def)
    with sc show ?thesis by (intro exI [of _ "t div step"]) simp
  qed
  show ?thesis
    unfolding Let_def tokens_def [symmetric] step_def [symmetric] n_def [symmetric]
    using ret win reach cover hello_world_chunk by blast
qed

theorem chunk_text_windows_witness:
  "(0::int) < 3 \<and> (0::int) \<le> 1 \<and> (1::int) < 3 \<and>
   chunk_text ''  a b  c d e '' 3 1 = Some [''a b c'', ''c d e'', ''e'']"
proof -
  have tok: "str_split ''  a b  c d e '' = [''a'', ''b'', ''c'', ''d'', ''e'']"
    by (simp add: str_split_def isspace_def)
  have "[0..<3] = [0, Suc 0, 2]" by (simp add: upt_conv_Cons)
  with chunk_text_windows [of 3 1 "''  a b  c d e ''"] tok show ?thesis
    by (simp add: Let_def)
qed

section \<open>Properties of the build, the loader and the query\<close>

subsection \<open>The loops of the build\<close>

lemma add_chunks_eq:
  "add_chunks encode doc idx chunks (E, M) =
     (E @ map encode chunks, M @ map (\<lambda>(i, c). entry_meta doc i c) (enumerate idx chunks))"
  by (induction chunks arbitrary: idx E M) simp_all

lemma chunk_text_300_50: "\<exists>chunks. chunk_text t 300 50 = Some chunks"
  using chunk_text_returns [of 300 50 t] by simp

lemma doc_chunks_exist:
  "\<exists>css. list_all2 (\<lambda>doc cs. chunk_text (doc_text doc) 300 50 = Some cs) docs css"
proof (induction docs)
  case Nil
  show ?case by simp
next
  case (Cons doc docs)
  then obtain css where "list_all2 (\<lambda>doc cs. chunk_text (doc_text doc) 300 50 = Some cs) docs css"
    by blast
  moreover obtain cs where "chunk_text (doc_text doc) 300 50 = Some cs"
    using chunk_text_300_50 by blast
  ultimately have "list_all2 (\<lambda>doc cs. chunk_text (doc_text doc) 300 50 = Some cs)
      (doc # docs) (cs # css)" by simp
  then show ?case by blast
qed

lemma add_docs_eq:
  assumes "list_all2 (\<lambda>doc cs. chunk_text (doc_text doc) 300 50 = Some cs) docs css"
  shows "add_docs encode docs (E, M) =
     Some (E @ map encode (concat css),
           M @ concat (map2 (\<lambda>doc cs. map (\<lambda>(i, c). entry_meta doc i c) (enumerate 0 cs))
                            docs css))"
  using assms
proof (induction docs css arbitrary: E M rule: list_all2_induct)
  case Nil
  show ?case by simp
next
  case (Cons doc docs cs css)
  show ?case
    by (simp add: Cons.hyps(1) add_chunks_eq Cons.IH)
qed

text \<open>The two lists that the loops of the build produce, as one list of entries.\<close>

lemma entries_chunks_aux:
  "map ((\<lambda>(doc, i, c). f c) \<circ> Pair d) (enumerate n cs) = map f cs"
  by (induction cs arbitrary: n) simp_all

lemma entries_meta_aux:
  "map ((\<lambda>(doc, i, c). g doc i c) \<circ> Pair d) (enumerate n cs) =
     map (\<lambda>(i, c). g d i c) (enumerate n cs)"
  by (induction cs arbitrary: n) simp_all

lemma entries_chunks:
  "map (\<lambda>(doc, i, c). f c)
       (concat (map2 (\<lambda>doc cs. map (\<lambda>(i, c). (doc, i, c)) (enumerate 0 cs)) docs css)) =
     map f (concat (take (length docs) css))"
proof (induction docs arbitrary: css)
  case Nil
  show ?case by simp
next
  case (Cons d docs)
  then show ?case by (cases css) (simp_all add: entries_chunks_aux)
qed

lemma entries_meta:
  "map (\<lambda>(doc, i, c). g doc i c)
       (concat (map2 (\<lambda>doc cs. map (\<lambda>(i, c). (doc, i, c)) (enumerate 0 cs)) docs css)) =
     concat (map2 (\<lambda>doc cs. map (\<lambda>(i, c). g doc i c) (enumerate 0 cs)) docs css)"
proof (induction docs arbitrary: css)
  case Nil
  show ?case by simp
next
  case (Cons d docs)
  then show ?case by (cases css) (simp_all add: entries_meta_aux)
qed

subsection \<open>The build in memory and on disk\<close>

lemma build_memory_eq:
  assumes "list_all2 (\<lambda>doc cs. chunk_text (doc_text doc) 300 50 = Some cs)
             (load_text_files dir_files) css"
  shows "build_memory encode normalize_L2 dir_files =
     Some (if concat css = [] then Inl NoTextChunks
           else case vstack (map encode (concat css)) of
                  Inl e \<Rightarrow> Inl e
                | Inr rows \<Rightarrow>
                    Inr (\<lparr>index_d = length (hd rows), index_xb = map normalize_L2 rows\<rparr>,
                         concat (map2 (\<lambda>doc cs. map (\<lambda>(i, c). entry_meta doc i c) (enumerate 0 cs))
                                      (load_text_files dir_files) css)))"
  unfolding build_memory_def
  by (simp add: add_docs_eq [OF assms, of encode "[]" "[]", simplified] split: sum.split)

lemma vstack_rows: "vstack embeddings = Inr rows \<Longrightarrow> rows = embeddings"
  by (simp add: vstack_def split: if_splits)

lemma build_memory_returns: "\<exists>r. build_memory encode normalize_L2 dir_files = Some r"
proof -
  obtain css where "list_all2 (\<lambda>doc cs. chunk_text (doc_text doc) 300 50 = Some cs)
             (load_text_files dir_files) css"
    using doc_chunks_exist by blast
  from build_memory_eq [OF this] show ?thesis by blast
qed

lemma build_memory_index:
  assumes "build_memory encode normalize_L2 dir_files = Some (Inr (index, meta))"
  shows "\<exists>css. list_all2 (\<lambda>doc cs. chunk_text (doc_text doc) 300 50 = Some cs)
             (load_text_files dir_files) css \<and> concat css \<noteq> [] \<and>
           index_xb index = map normalize_L2 (map encode (concat css)) \<and>
           index_d index = length (encode (hd (concat css))) \<and>
           meta = concat (map2 (\<lambda>doc cs. map (\<lambda>(i, c). entry_meta doc i c) (enumerate 0 cs))
                                      (load_text_files dir_files) css)"
proof -
  obtain css where css: "list_all2 (\<lambda>doc cs. chunk_text (doc_text doc) 300 50 = Some cs)
             (load_text_files dir_files) css"
    using doc_chunks_exist by blast
  define chunks where "chunks = concat css"
  define m where "m = concat (map2 (\<lambda>doc cs. map (\<lambda>(i, c). entry_meta doc i c) (enumerate 0 cs))
                                      (load_text_files dir_files) css)"
  have eq: "(if chunks = [] then Inl NoTextChunks
           else case vstack (map encode chunks) of
                  Inl e \<Rightarrow> Inl e
                | Inr rows \<Rightarrow>
                    Inr (\<lparr>index_d = length (hd rows), index_xb = map normalize_L2 rows\<rparr>, m)) =
        Inr (index, meta)"
    using assms unfolding chunks_def m_def build_memory_eq [OF css, of encode normalize_L2]
    by (simp only: option.inject)
  have ne: "chunks \<noteq> []"
  proof
    assume "chunks = []"
    with eq show False by simp
  qed
  obtain rows where rows: "vstack (map encode chunks) = Inr rows"
  proof (cases "vstack (map encode chunks)")
    case (Inl e)
    with eq ne show ?thesis by simp
  next
    case (Inr rows)
    with that show ?thesis .
  qed
  from eq ne rows have ix: "index = \<lparr>index_d = length (hd rows), index_xb = map normalize_L2 rows\<rparr>"
    and m: "meta = m"
    by simp_all
  from rows have "rows = map encode chunks" by (rule vstack_rows)
  with ix ne have "index_xb index = map normalize_L2 (map encode chunks)"
    "index_d index = length (encode (hd chunks))"
    by (simp_all add: hd_map)
  with css ne m show ?thesis unfolding chunks_def m_def by blast
qed

lemma build_index_success:
  assumes "build_index encode normalize_L2 fs = Some (fs', Inr info)"
  shows "\<exists>dir_files index meta. docs_dir fs = Some dir_files \<and>
           build_memory encode normalize_L2 dir_files = Some (Inr (index, meta)) \<and>
           fs' = fs\<lparr>index_file := Some index, meta_file := Some meta\<rparr> \<and>
           info = \<lparr>vectors = length (index_xb index), dim = index_d index\<rparr>"
  using assms unfolding build_index_def
  by (auto split: option.splits sum.splits)

lemma build_index_failure:
  assumes "build_index encode normalize_L2 fs = Some (fs', Inl e)"
  shows "fs' = fs"
  using assms unfolding build_index_def
  by (auto split: option.splits sum.splits)

text \<open>The build always returns: with the sizes 300 and 50 the chunker always does.\<close>

lemma build_index_returns: "\<exists>r. build_index encode normalize_L2 fs = Some r"
proof (cases "docs_dir fs")
  case None
  then show ?thesis by (simp add: build_index_def)
next
  case (Some dir_files)
  obtain r where "build_memory encode normalize_L2 dir_files = Some r"
    using build_memory_returns by blast
  with Some show ?thesis
    by (cases r) (auto simp: build_index_def)
qed

subsection \<open>The error paths of the build\<close>

text \<open>
  Claim C6. When the documents folder does not exist, the build raises the
  folder-not-found error; when the corpus yields no chunk, it raises the no-text-chunks
  error. On every error path the disk after the call is the disk before it: neither the
  index file nor the metadata file is created or changed.
\<close>

theorem build_error_writes_nothing:
  "(docs_dir fs = None \<longrightarrow>
      build_index encode normalize_L2 fs = Some (fs, Inl DocsFolderNotFound)) \<and>
   (\<forall>dir_files. docs_dir fs = Some dir_files \<and>
        (\<forall>doc\<in>set (load_text_files dir_files). chunk_text (doc_text doc) 300 50 = Some []) \<longrightarrow>
      build_index encode normalize_L2 fs = Some (fs, Inl NoTextChunks)) \<and>
   (\<forall>fs' e. build_index encode normalize_L2 fs = Some (fs', Inl e) \<longrightarrow>
      fs' = fs \<and> index_file fs' = index_file fs \<and> meta_file fs' = meta_file fs)"
proof (intro conjI allI impI)
  assume "docs_dir fs = None"
  then show "build_index encode normalize_L2 fs = Some (fs, Inl DocsFolderNotFound)"
    by (simp add: build_index_def)
next
  fix dir_files
  assume a: "docs_dir fs = Some dir_files \<and>
        (\<forall>doc\<in>set (load_text_files dir_files). chunk_text (doc_text doc) 300 50 = Some [])"
  define css :: "string list list" where
    "css = replicate (length (load_text_files dir_files)) []"
  have "list_all2 (\<lambda>doc cs. chunk_text (doc_text doc) 300 50 = Some cs)
             (load_text_files dir_files) css"
    using a by (simp add: css_def list_all2_conv_all_nth)
  from build_memory_eq [OF this, of encode normalize_L2]
  have "build_memory encode normalize_L2 dir_files = Some (Inl NoTextChunks)"
    by (simp add: css_def)
  with a show "build_index encode normalize_L2 fs = Some (fs, Inl NoTextChunks)"
    by (simp add: build_index_def)
next
  fix fs' e
  assume "build_index encode normalize_L2 fs = Some (fs', Inl e)"
  then have "fs' = fs" by (rule build_index_failure)
  then show "fs' = fs" "index_file fs' = index_file fs" "meta_file fs' = meta_file fs"
    by simp_all
qed

theorem build_error_writes_nothing_witness:
  "build_index (\<lambda>s. [1]) id \<lparr>docs_dir = None, index_file = None, meta_file = None\<rparr> =
     Some (\<lparr>docs_dir = None, index_file = None, meta_file = None\<rparr>, Inl DocsFolderNotFound) \<and>
   build_index (\<lambda>s. [1]) id
       \<lparr>docs_dir = Some [(''docs/a.txt'', ''  ''), (''docs/b.pdf'', ''x y'')],
        index_file = Some \<lparr>index_d = 1, index_xb = [[1]]\<rparr>, meta_file = None\<rparr> =
     Some (\<lparr>docs_dir = Some [(''docs/a.txt'', ''  ''), (''docs/b.pdf'', ''x y'')],
        index_file = Some \<lparr>index_d = 1, index_xb = [[1]]\<rparr>, meta_file = None\<rparr>, Inl NoTextChunks)"
proof -
  let ?fs1 = "\<lparr>docs_dir = None, index_file = None, meta_file = None\<rparr>"
  let ?files = "[(''docs/a.txt'', ''  ''), (''docs/b.pdf'', ''x y'')]"
  let ?fs2 = "\<lparr>docs_dir = Some ?files,
        index_file = Some \<lparr>index_d = 1, index_xb = [[1]]\<rparr>, meta_file = None\<rparr>"
  have l: "load_text_files ?files = [\<lparr>path = ''docs/a.txt'', doc_text = ''  ''\<rparr>]"
    by (simp add: load_text_files_def glob_ext_def basename_def endswith_def)
  have c: "chunk_text ''  '' 300 50 = Some []"
    by (simp add: chunk_text_def str_split_def isspace_def chunk_loop.simps)
  from build_error_writes_nothing [of ?fs1 "\<lambda>s. [1]" id]
    build_error_writes_nothing [of ?fs2 "\<lambda>s. [1]" id] l c
  show ?thesis by simp
qed

text \<open>
  Claim C10. A text that has only whitespace characters (the empty text among them) gives
  the empty list of chunks, whatever the chunk size and the overlap; and when every file
  that the corpus reader lists has such a text, the build raises the no-text-chunks error
  and leaves the disk as it was.
\<close>

theorem whitespace_only_corpus:
  "((\<forall>c\<in>set txt. isspace c) \<longrightarrow> chunk_text txt chunk_size overlap = Some []) \<and>
   (docs_dir fs = Some dir_files \<and>
      (\<forall>doc\<in>set (load_text_files dir_files). \<forall>c\<in>set (doc_text doc). isspace c) \<longrightarrow>
    build_index encode normalize_L2 fs = Some (fs, Inl NoTextChunks))"
proof (intro conjI impI)
  have ws: "chunk_text t cs ov = Some []" if "\<forall>c\<in>set t. isspace c" for t cs ov
  proof -
    from that have "str_split t = []" by (simp add: str_split_Nil_iff)
    then show ?thesis
      unfolding chunk_text_def by (subst chunk_loop.simps) simp
  qed
  {
    assume "\<forall>c\<in>set txt. isspace c"
    then show "chunk_text txt chunk_size overlap = Some []" by (rule ws)
  next
    assume a: "docs_dir fs = Some dir_files \<and>
      (\<forall>doc\<in>set (load_text_files dir_files). \<forall>c\<in>set (doc_text doc). isspace c)"
    define css :: "string list list" where
      "css = replicate (length (load_text_files dir_files)) []"
    from a ws have "\<forall>doc\<in>set (load_text_files dir_files).
        chunk_text (doc_text doc) 300 50 = Some []" by blast
    then have "list_all2 (\<lambda>doc cs. chunk_text (doc_text doc) 300 50 = Some cs)
             (load_text_files dir_files) css"
      by (simp add: css_def list_all2_conv_all_nth)
    from build_memory_eq [OF this, of encode normalize_L2]
    have "build_memory encode normalize_L2 dir_files = Some (Inl NoTextChunks)"
      by (simp add: css_def)
    with a show "build_index encode normalize_L2 fs = Some (fs, Inl NoTextChunks)"
      by (simp add: build_index_def)
  }
qed

theorem whitespace_only_corpus_witness:
  "chunk_text [CHR 0x20, CHR 0x09, CHR 0x0A] 300 50 = Some [] \<and>
   chunk_text [CHR 0x20, CHR 0x09, CHR 0x0A] 1 7 = Some [] \<and>
   build_index (\<lambda>s. [1]) id
       \<lparr>docs_dir = Some [(''docs/a.txt'', ''  ''), (''docs/b.md'', [])],
        index_file = None, meta_file = None\<rparr> =
     Some (\<lparr>docs_dir = Some [(''docs/a.txt'', ''  ''), (''docs/b.md'', [])],
        index_file = None, meta_file = None\<rparr>, Inl NoTextChunks)"
proof -
  let ?files = "[(''docs/a.txt'', ''  ''), (''docs/b.md'', [])]"
  let ?fs = "\<lparr>docs_dir = Some ?files, index_file = None, meta_file = None\<rparr>"
  have l: "load_text_files ?files =
      [\<lparr>path = ''docs/a.txt'', doc_text = ''  ''\<rparr>, \<lparr>path = ''docs/b.md'', doc_text = []\<rparr>]"
    by (simp add: load_text_files_def glob_ext_def basename_def endswith_def)
  from whitespace_only_corpus [of "[CHR 0x20, CHR 0x09, CHR 0x0A]" 300 50 ?fs ?files "\<lambda>s. [1]" id]
    whitespace_only_corpus [of "[CHR 0x20, CHR 0x09, CHR 0x0A]" 1 7 ?fs ?files "\<lambda>s. [1]" id] l
  show ?thesis by (simp add: isspace_def)
qed

subsection \<open>Two worked builds\<close>

text \<open>
  A corpus of two files, listed by the folder in the order \<open>b.md\<close>, \<open>a.txt\<close>; the
  embedding of a chunk is its length followed by 1, and the normalisation is the identity.
\<close>

lemma example_build_memory:
  "build_memory (\<lambda>s. [real (length s), 1]) id
      [(''docs/b.md'', ''x''), (''docs/a.txt'', ''hello  world'')] =
   Some (Inr (\<lparr>index_d = 2, index_xb = [[11, 1], [1, 1]]\<rparr>,
              [\<lparr>source = ''a.txt'', chunk_idx = 0, meta_text = ''hello world''\<rparr>,
               \<lparr>source = ''b.md'', chunk_idx = 0, meta_text = ''x''\<rparr>]))"
proof -
  have l: "load_text_files [(''docs/b.md'', ''x''), (''docs/a.txt'', ''hello  world'')] =
      [\<lparr>path = ''docs/a.txt'', doc_text = ''hello  world''\<rparr>, \<lparr>path = ''docs/b.md'', doc_text = ''x''\<rparr>]"
    by (simp add: load_text_files_def glob_ext_def basename_def endswith_def)
  have c: "chunk_text ''hello  world'' 300 50 = Some [''hello world'']"
    "chunk_text ''x'' 300 50 = Some [''x'']"
    by (simp_all add: chunk_text_def str_split_def isspace_def chunk_loop.simps
        py_slice_def slice_bound_def)
  show ?thesis
    by (simp add: build_memory_def l c entry_meta_def basename_def vstack_def)
qed

lemma example_build:
  "build_index (\<lambda>s. [real (length s), 1]) id
      \<lparr>docs_dir = Some [(''docs/b.md'', ''x''), (''docs/a.txt'', ''hello  world'')],
       index_file = None, meta_file = None\<rparr> =
   Some (\<lparr>docs_dir = Some [(''docs/b.md'', ''x''), (''docs/a.txt'', ''hello  world'')],
          index_file = Some \<lparr>index_d = 2, index_xb = [[11, 1], [1, 1]]\<rparr>,
          meta_file = Some [\<lparr>source = ''a.txt'', chunk_idx = 0, meta_text = ''hello world''\<rparr>,
                            \<lparr>source = ''b.md'', chunk_idx = 0, meta_text = ''x''\<rparr>]\<rparr>,
         Inr \<lparr>vectors = 2, dim = 2\<rparr>)"
  by (simp add: build_index_def example_build_memory)

text \<open>A text of one token; and a corpus whose only chunk has 601 characters.\<close>

lemma single_token_text:
  assumes "t \<noteq> []" "\<forall>c\<in>set t. \<not> isspace c"
  shows "chunk_text t 300 50 = Some [t]"
proof -
  have "split_from [] (t @ []) = split_from ([] @ t) []"
    using assms(2) by (rule split_from_token_prefix)
  with assms(1) have tok: "str_split t = [t]" by (simp add: str_split_def)
  have "chunk_loop [t] 300 50 0 [] = chunk_loop [t] 300 50 250 [t]"
    by (subst chunk_loop.simps) (simp add: py_slice_def slice_bound_def)
  also have "\<dots> = Some [t]"
    by (subst chunk_loop.simps) simp
  finally show ?thesis by (simp add: chunk_text_def tok)
qed

lemma example_long_build:
  "build_index (\<lambda>s. [real (length s)]) id
      \<lparr>docs_dir = Some [(''docs/a.txt'', replicate 601 CHR ''a'')],
       index_file = None, meta_file = None\<rparr> =
   Some (\<lparr>docs_dir = Some [(''docs/a.txt'', replicate 601 CHR ''a'')],
          index_file = Some \<lparr>index_d = 1, index_xb = [[601]]\<rparr>,
          meta_file = Some [\<lparr>source = ''a.txt'', chunk_idx = 0,
                             meta_text = replicate 600 CHR ''a''\<rparr>]\<rparr>,
         Inr \<lparr>vectors = 1, dim = 1\<rparr>)"
proof -
  define t where "t = replicate 601 CHR ''a''"
  have t: "t \<noteq> []" "\<forall>c\<in>set t. \<not> isspace c" "length t = 601" "take 600 t = replicate 600 CHR ''a''"
    by (simp_all add: t_def isspace_def)
  have l: "load_text_files [(''docs/a.txt'', t)] = [\<lparr>path = ''docs/a.txt'', doc_text = t\<rparr>]"
    by (simp add: load_text_files_def glob_ext_def basename_def endswith_def)
  have c: "chunk_text t 300 50 = Some [t]"
    using t(1,2) by (rule single_token_text)
  have "build_index (\<lambda>s. [real (length s)]) id
      \<lparr>docs_dir = Some [(''docs/a.txt'', t)], index_file = None, meta_file = None\<rparr> =
   Some (\<lparr>docs_dir = Some [(''docs/a.txt'', t)],
          index_file = Some \<lparr>index_d = 1, index_xb = [[601]]\<rparr>,
          meta_file = Some [\<lparr>source = ''a.txt'', chunk_idx = 0,
                             meta_text = replicate 600 CHR ''a''\<rparr>]\<rparr>,
         Inr \<lparr>vectors = 1, dim = 1\<rparr>)"
    by (simp add: build_index_def build_memory_def l c t(3,4) entry_meta_def basename_def vstack_def)
  then show ?thesis unfolding t_def .
qed

subsection \<open>What a successful build writes\<close>

lemma build_index_written:
  assumes "build_index encode normalize_L2 fs = Some (fs', Inr info)"
  shows "\<exists>dir_files css index meta.
           docs_dir fs = Some dir_files \<and>
           list_all2 (\<lambda>doc cs. chunk_text (doc_text doc) 300 50 = Some cs)
             (load_text_files dir_files) css \<and>
           index_file fs' = Some index \<and> meta_file fs' = Some meta \<and>
           vectors info = length (index_xb index) \<and>
           index_xb index = map normalize_L2 (map encode (concat css)) \<and>
           meta = concat (map2 (\<lambda>doc cs. map (\<lambda>(i, c). entry_meta doc i c) (enumerate 0 cs))
                                      (load_text_files dir_files) css)"
proof -
  from build_index_success [OF assms]
  obtain dir_files index meta where b: "docs_dir fs = Some dir_files"
    "build_memory encode normalize_L2 dir_files = Some (Inr (index, meta))"
    "fs' = fs\<lparr>index_file := Some index, meta_file := Some meta\<rparr>"
    "info = \<lparr>vectors = length (index_xb index), dim = index_d index\<rparr>"
    by blast
  from build_memory_index [OF b(2)]
  obtain css where c: "list_all2 (\<lambda>doc cs. chunk_text (doc_text doc) 300 50 = Some cs)
             (load_text_files dir_files) css"
    "index_xb index = map normalize_L2 (map encode (concat css))"
    "meta = concat (map2 (\<lambda>doc cs. map (\<lambda>(i, c). entry_meta doc i c) (enumerate 0 cs))
                                      (load_text_files dir_files) css)"
    by blast
  from b(3) have "index_file fs' = Some index" "meta_file fs' = Some meta" by simp_all
  moreover from b(4) have "vectors info = length (index_xb index)" by simp
  ultimately show ?thesis using b(1) c by blast
qed

text \<open>
  Claim C9. After a successful build, take the documents in the order of the corpus reader
  and, for each, its chunks numbered from 0 (the policy is \<open>chunk_size = 300\<close>,
  \<open>overlap = 50\<close>). This gives one list of entries (document, chunk index, chunk). The rows
  of the written index are the normalised embeddings of the chunks of these entries, and
  the written metadata are the records of these entries (source, chunk index, text cut to
  600 characters), both in the order of the entries: row \<open>i\<close> and record \<open>i\<close> come from
  the same entry. There are as many rows as records, and the returned count is that number. And every
  build returns: it never runs forever.
\<close>

theorem build_index_entries:
  "(\<exists>r. build_index encode normalize_L2 fs = Some r) \<and>
   (\<forall>fs' info. build_index encode normalize_L2 fs = Some (fs', Inr info) \<longrightarrow>
      (\<exists>dir_files css index meta.
           docs_dir fs = Some dir_files \<and>
           list_all2 (\<lambda>doc cs. chunk_text (doc_text doc) 300 50 = Some cs)
             (load_text_files dir_files) css \<and>
           index_file fs' = Some index \<and> meta_file fs' = Some meta \<and>
           (let entries = concat (map2 (\<lambda>doc cs. map (\<lambda>(i, c). (doc, i, c)) (enumerate 0 cs))
                                       (load_text_files dir_files) css)
            in index_xb index = map (\<lambda>(doc, i, c). normalize_L2 (encode c)) entries \<and>
               meta = map (\<lambda>(doc, i, c). \<lparr>source = basename (path doc), chunk_idx = i,
                                            meta_text = take 600 c\<rparr>) entries) \<and>
           length (index_xb index) = length meta \<and> vectors info = length meta))"
proof (intro conjI allI impI)
  show "\<exists>r. build_index encode normalize_L2 fs = Some r"
    by (rule build_index_returns)
next
  fix fs' info
  assume built: "build_index encode normalize_L2 fs = Some (fs', Inr info)"
  from build_index_written [OF built]
  obtain dir_files css index meta where b: "docs_dir fs = Some dir_files"
    "list_all2 (\<lambda>doc cs. chunk_text (doc_text doc) 300 50 = Some cs)
             (load_text_files dir_files) css"
    "index_file fs' = Some index" "meta_file fs' = Some meta"
    "vectors info = length (index_xb index)"
    "index_xb index = map normalize_L2 (map encode (concat css))"
    "meta = concat (map2 (\<lambda>doc cs. map (\<lambda>(i, c). entry_meta doc i c) (enumerate 0 cs))
                                      (load_text_files dir_files) css)"
    by blast
  let ?entries = "concat (map2 (\<lambda>doc cs. map (\<lambda>(i, c). (doc, i, c)) (enumerate 0 cs))
                    (load_text_files dir_files) css)"
  from b(2) have len: "length (load_text_files dir_files) = length css"
    by (rule list_all2_lengthD)
  have m: "meta = map (\<lambda>(doc, i, c). \<lparr>source = basename (path doc), chunk_idx = i,
                                            meta_text = take 600 c\<rparr>) ?entries"
    unfolding b(7) entry_meta_def by (rule entries_meta [symmetric])
  have "map (\<lambda>(doc, i, c). normalize_L2 (encode c)) ?entries =
      map (\<lambda>c. normalize_L2 (encode c)) (concat (take (length (load_text_files dir_files)) css))"
    by (rule entries_chunks)
  with b(6) len have x: "index_xb index = map (\<lambda>(doc, i, c). normalize_L2 (encode c)) ?entries"
    by simp
  from m x have l: "length (index_xb index) = length meta" by simp
  with b(5) have "vectors info = length meta" by simp
  with m x l b(1-4) show "\<exists>dir_files css index meta.
           docs_dir fs = Some dir_files \<and>
           list_all2 (\<lambda>doc cs. chunk_text (doc_text doc) 300 50 = Some cs)
             (load_text_files dir_files) css \<and>
           index_file fs' = Some index \<and> meta_file fs' = Some meta \<and>
           (let entries = concat (map2 (\<lambda>doc cs. map (\<lambda>(i, c). (doc, i, c)) (enumerate 0 cs))
                                       (load_text_files dir_files) css)
            in index_xb index = map (\<lambda>(doc, i, c). normalize_L2 (encode c)) entries \<and>
               meta = map (\<lambda>(doc, i, c). \<lparr>source = basename (path doc), chunk_idx = i,
                                            meta_text = take 600 c\<rparr>) entries) \<and>
           length (index_xb index) = length meta \<and> vectors info = length meta"
    unfolding Let_def by blast
qed

theorem build_index_entries_witness:
  "build_index (\<lambda>s. [real (length s), 1]) id
      \<lparr>docs_dir = Some [(''docs/b.md'', ''x''), (''docs/a.txt'', ''hello  world'')],
       index_file = None, meta_file = None\<rparr> =
   Some (\<lparr>docs_dir = Some [(''docs/b.md'', ''x''), (''docs/a.txt'', ''hello  world'')],
          index_file = Some \<lparr>index_d = 2, index_xb = [[11, 1], [1, 1]]\<rparr>,
          meta_file = Some [\<lparr>source = ''a.txt'', chunk_idx = 0, meta_text = ''hello world''\<rparr>,
                            \<lparr>source = ''b.md'', chunk_idx = 0, meta_text = ''x''\<rparr>]\<rparr>,
         Inr \<lparr>vectors = 2, dim = 2\<rparr>) \<and>
   length [[11, 1], [1, 1 :: real]] =
     length [\<lparr>source = ''a.txt'', chunk_idx = 0, meta_text = ''hello world''\<rparr>,
             \<lparr>source = ''b.md'', chunk_idx = 0, meta_text = ''x''\<rparr>] \<and>
   vectors \<lparr>vectors = 2, dim = 2\<rparr> =
     length [\<lparr>source = ''a.txt'', chunk_idx = 0, meta_text = ''hello world''\<rparr>,
             \<lparr>source = ''b.md'', chunk_idx = 0, meta_text = ''x''\<rparr>]"
proof -
  from build_index_entries [THEN conjunct2, rule_format, OF example_build]
  obtain index meta where
    "Some \<lparr>index_d = 2, index_xb = [[11, 1], [1, 1]]\<rparr> = Some index"
    "Some [\<lparr>source = ''a.txt'', chunk_idx = 0, meta_text = ''hello world''\<rparr>,
           \<lparr>source = ''b.md'', chunk_idx = 0, meta_text = ''x''\<rparr>] = Some meta"
    "length (index_xb index) = length meta"
    "vectors \<lparr>vectors = 2, dim = 2\<rparr> = length meta"
    by auto
  then have "length [[11, 1], [1, 1 :: real]] =
     length [\<lparr>source = ''a.txt'', chunk_idx = 0, meta_text = ''hello world''\<rparr>,
             \<lparr>source = ''b.md'', chunk_idx = 0, meta_text = ''x''\<rparr>]"
    "vectors \<lparr>vectors = 2, dim = 2\<rparr> =
     length [\<lparr>source = ''a.txt'', chunk_idx = 0, meta_text = ''hello world''\<rparr>,
             \<lparr>source = ''b.md'', chunk_idx = 0, meta_text = ''x''\<rparr>]"
    by auto
  with example_build show ?thesis by blast
qed

text \<open>
  Claim C8. After a successful build (with the policy \<open>chunk_size = 300\<close>, \<open>overlap = 50\<close>),
  each row of the written index is the normalised embedding of a whole chunk, and the text
  stored in the metadata record at the same position is the first 600 characters of that
  chunk: the cut is applied to the stored text only, never to the text that is embedded.
\<close>

theorem embeds_full_chunk_stores_truncated:
  assumes "build_index encode normalize_L2 fs = Some (fs', Inr info)"
  shows "\<exists>dir_files css index meta.
           docs_dir fs = Some dir_files \<and>
           list_all2 (\<lambda>doc cs. chunk_text (doc_text doc) 300 50 = Some cs)
             (load_text_files dir_files) css \<and>
           index_file fs' = Some index \<and> meta_file fs' = Some meta \<and>
           index_xb index = map (\<lambda>chunk. normalize_L2 (encode chunk)) (concat css) \<and>
           map meta_text meta = map (\<lambda>chunk. take 600 chunk) (concat css)"
proof -
  from build_index_written [OF assms]
  obtain dir_files css index meta where b: "docs_dir fs = Some dir_files"
    "list_all2 (\<lambda>doc cs. chunk_text (doc_text doc) 300 50 = Some cs)
             (load_text_files dir_files) css"
    "index_file fs' = Some index" "meta_file fs' = Some meta"
    "index_xb index = map normalize_L2 (map encode (concat css))"
    "meta = concat (map2 (\<lambda>doc cs. map (\<lambda>(i, c). entry_meta doc i c) (enumerate 0 cs))
                                      (load_text_files dir_files) css)"
    by blast
  let ?entries = "concat (map2 (\<lambda>doc cs. map (\<lambda>(i, c). (doc, i, c)) (enumerate 0 cs))
                    (load_text_files dir_files) css)"
  from b(2) have len: "length (load_text_files dir_files) = length css"
    by (rule list_all2_lengthD)
  have "meta = map (\<lambda>(doc, i, c). entry_meta doc i c) ?entries"
    unfolding b(6) by (rule entries_meta [symmetric])
  then have "map meta_text meta = map (\<lambda>(doc, i, c). take 600 c) ?entries"
    by (simp add: entry_meta_def case_prod_unfold comp_def)
  also have "\<dots> = map (\<lambda>chunk. take 600 chunk) (concat (take (length (load_text_files dir_files)) css))"
    by (rule entries_chunks)
  finally have "map meta_text meta = map (\<lambda>chunk. take 600 chunk) (concat css)"
    using len by simp
  moreover from b(5) have "index_xb index = map (\<lambda>chunk. normalize_L2 (encode chunk)) (concat css)"
    by simp
  ultimately show ?thesis using b(1-4) by blast
qed

theorem embeds_full_chunk_stores_truncated_witness:
  "build_index (\<lambda>s. [real (length s)]) id
      \<lparr>docs_dir = Some [(''docs/a.txt'', replicate 601 CHR ''a'')],
       index_file = None, meta_file = None\<rparr> =
   Some (\<lparr>docs_dir = Some [(''docs/a.txt'', replicate 601 CHR ''a'')],
          index_file = Some \<lparr>index_d = 1, index_xb = [[601]]\<rparr>,
          meta_file = Some [\<lparr>source = ''a.txt'', chunk_idx = 0,
                             meta_text = replicate 600 CHR ''a''\<rparr>]\<rparr>,
         Inr \<lparr>vectors = 1, dim = 1\<rparr>) \<and>
   [[601]] = map (\<lambda>chunk. id [real (length chunk)]) [replicate 601 CHR ''a''] \<and>
   [replicate 600 CHR ''a''] = map (\<lambda>chunk. take 600 chunk) [replicate 601 CHR ''a'']"
proof -
  define t where "t = replicate 601 CHR ''a''"
  have t: "t \<noteq> []" "\<forall>c\<in>set t. \<not> isspace c"
    by (simp_all add: t_def isspace_def)
  have l: "load_text_files [(''docs/a.txt'', t)] = [\<lparr>path = ''docs/a.txt'', doc_text = t\<rparr>]"
    by (simp add: load_text_files_def glob_ext_def basename_def endswith_def)
  have c: "chunk_text t 300 50 = Some [t]"
    using t by (rule single_token_text)
  from embeds_full_chunk_stores_truncated [OF example_long_build]
  obtain css index meta where w:
    "list_all2 (\<lambda>doc cs. chunk_text (doc_text doc) 300 50 = Some cs)
       (load_text_files [(''docs/a.txt'', t)]) css"
    "Some \<lparr>index_d = 1, index_xb = [[601]]\<rparr> = Some index"
    "Some [\<lparr>source = ''a.txt'', chunk_idx = 0, meta_text = replicate 600 CHR ''a''\<rparr>] = Some meta"
    "index_xb index = map (\<lambda>chunk. id [real (length chunk)]) (concat css)"
    "map meta_text meta = map (\<lambda>chunk. take 600 chunk) (concat css)"
    unfolding t_def by auto
  from w(1) have "css = [[t]]"
    unfolding l by (simp add: list_all2_Cons1 c)
  with w(2-5) have "[[601]] = map (\<lambda>chunk. id [real (length chunk)]) [t]"
    "[replicate 600 CHR ''a''] = map (\<lambda>chunk. take 600 chunk) [t]"
    by auto
  with example_long_build show ?thesis unfolding t_def by blast
qed

subsection \<open>The loader\<close>

text \<open>
  Claim C4. After a successful build, loading gives back the index and the metadata that
  the build had in memory when it wrote them: the entry count and the dimension are the
  ones the build returned, and a query on the disk after the build computes its answer
  from that index and that metadata, whatever the engine, the query and \<open>k\<close>. Scores are
  equal, not only close: the files are taken to hold the values written to them.
\<close>

theorem build_load_roundtrip:
  assumes "build_index encode normalize_L2 fs = Some (fs', Inr info)"
  shows "\<exists>dir_files index meta.
           docs_dir fs = Some dir_files \<and>
           build_memory encode normalize_L2 dir_files = Some (Inr (index, meta)) \<and>
           load_index fs' = Inr (index, meta) \<and>
           ntotal index = vectors info \<and> index_d index = dim info \<and>
           (\<forall>search q k. query_index encode normalize_L2 search detect fs' q k =
              (case search index (normalize_L2 (encode q)) k of
                 (D, I) \<Rightarrow>
                   (case collect_results meta (zip D I) [] of
                      Inl e \<Rightarrow> Inl e
                    | Inr rs \<Rightarrow> Inr \<lparr>query = q, lang = safe_detect_lang detect q, results = rs\<rparr>)))"
proof -
  from build_index_success [OF assms]
  obtain dir_files index meta where b: "docs_dir fs = Some dir_files"
    "build_memory encode normalize_L2 dir_files = Some (Inr (index, meta))"
    "fs' = fs\<lparr>index_file := Some index, meta_file := Some meta\<rparr>"
    "info = \<lparr>vectors = length (index_xb index), dim = index_d index\<rparr>"
    by blast
  from b(3) have l: "load_index fs' = Inr (index, meta)" by (simp add: load_index_def)
  from b(4) have "ntotal index = vectors info" "index_d index = dim info"
    by (simp_all add: ntotal_def)
  moreover from l have "\<forall>search q k. query_index encode normalize_L2 search detect fs' q k =
              (case search index (normalize_L2 (encode q)) k of
                 (D, I) \<Rightarrow>
                   (case collect_results meta (zip D I) [] of
                      Inl e \<Rightarrow> Inl e
                    | Inr rs \<Rightarrow> Inr \<lparr>query = q, lang = safe_detect_lang detect q, results = rs\<rparr>))"
    by (simp add: query_index_def)
  ultimately show ?thesis using b(1,2) l by blast
qed

theorem build_load_roundtrip_witness:
  "build_index (\<lambda>s. [real (length s), 1]) id
      \<lparr>docs_dir = Some [(''docs/b.md'', ''x''), (''docs/a.txt'', ''hello  world'')],
       index_file = None, meta_file = None\<rparr> =
   Some (\<lparr>docs_dir = Some [(''docs/b.md'', ''x''), (''docs/a.txt'', ''hello  world'')],
          index_file = Some \<lparr>index_d = 2, index_xb = [[11, 1], [1, 1]]\<rparr>,
          meta_file = Some [\<lparr>source = ''a.txt'', chunk_idx = 0, meta_text = ''hello world''\<rparr>,
                            \<lparr>source = ''b.md'', chunk_idx = 0, meta_text = ''x''\<rparr>]\<rparr>,
         Inr \<lparr>vectors = 2, dim = 2\<rparr>) \<and>
   load_index \<lparr>docs_dir = Some [(''docs/b.md'', ''x''), (''docs/a.txt'', ''hello  world'')],
          index_file = Some \<lparr>index_d = 2, index_xb = [[11, 1], [1, 1]]\<rparr>,
          meta_file = Some [\<lparr>source = ''a.txt'', chunk_idx = 0, meta_text = ''hello world''\<rparr>,
                            \<lparr>source = ''b.md'', chunk_idx = 0, meta_text = ''x''\<rparr>]\<rparr> =
     Inr (\<lparr>index_d = 2, index_xb = [[11, 1], [1, 1]]\<rparr>,
          [\<lparr>source = ''a.txt'', chunk_idx = 0, meta_text = ''hello world''\<rparr>,
           \<lparr>source = ''b.md'', chunk_idx = 0, meta_text = ''x''\<rparr>]) \<and>
   ntotal \<lparr>index_d = 2, index_xb = [[11, 1], [1, 1]]\<rparr> = vectors \<lparr>vectors = 2, dim = 2\<rparr> \<and>
   index_d \<lparr>index_d = 2, index_xb = [[11, 1], [1, 1]]\<rparr> = dim \<lparr>vectors = 2, dim = 2\<rparr>"
proof -
  let ?files = "[(''docs/b.md'', ''x''), (''docs/a.txt'', ''hello  world'')]"
  let ?fs1 = "\<lparr>docs_dir = Some ?files,
          index_file = Some \<lparr>index_d = 2, index_xb = [[11, 1], [1, 1]]\<rparr>,
          meta_file = Some [\<lparr>source = ''a.txt'', chunk_idx = 0, meta_text = ''hello world''\<rparr>,
                            \<lparr>source = ''b.md'', chunk_idx = 0, meta_text = ''x''\<rparr>]\<rparr>"
  from build_load_roundtrip [OF example_build]
  obtain dir_files index meta where w:
    "docs_dir \<lparr>docs_dir = Some ?files, index_file = None, meta_file = None\<rparr> = Some dir_files"
    "build_memory (\<lambda>s. [real (length s), 1]) id dir_files = Some (Inr (index, meta))"
    "load_index ?fs1 = Inr (index, meta)"
    "ntotal index = vectors \<lparr>vectors = 2, dim = 2\<rparr>"
    "index_d index = dim \<lparr>vectors = 2, dim = 2\<rparr>"
    by blast
  from w(1) have "dir_files = ?files" by simp
  with w(2) example_build_memory
  have "index = \<lparr>index_d = 2, index_xb = [[11, 1], [1, 1]]\<rparr>"
    "meta = [\<lparr>source = ''a.txt'', chunk_idx = 0, meta_text = ''hello world''\<rparr>,
             \<lparr>source = ''b.md'', chunk_idx = 0, meta_text = ''x''\<rparr>]"
    by simp_all
  with w(3,4,5) example_build show ?thesis by simp
qed

text \<open>
  Claim C5, as the code has it. The loader fails exactly when one of the two files is
  missing. It does not compare the entry counts: when both files exist, it returns their
  contents as they are.
\<close>

theorem load_index_presence_only:
  "(load_index fs = Inl IndexOrMetaNotFound \<longleftrightarrow>
      index_file fs = None \<or> meta_file fs = None) \<and>
   (\<forall>index meta. index_file fs = Some index \<and> meta_file fs = Some meta \<longrightarrow>
      load_index fs = Inr (index, meta))"
proof (intro conjI allI impI)
  show "load_index fs = Inl IndexOrMetaNotFound \<longleftrightarrow>
      index_file fs = None \<or> meta_file fs = None"
  proof (cases "index_file fs")
    case None
    then show ?thesis by (simp add: load_index_def)
  next
    case (Some index)
    then show ?thesis by (cases "meta_file fs") (simp_all add: load_index_def)
  qed
next
  fix index meta
  assume "index_file fs = Some index \<and> meta_file fs = Some meta"
  then show "load_index fs = Inr (index, meta)" by (simp add: load_index_def)
qed

theorem load_index_presence_only_witness:
  "load_index \<lparr>docs_dir = None,
       index_file = Some \<lparr>index_d = 2, index_xb = [[1, 0], [0, 1], [1, 1]]\<rparr>,
       meta_file = Some []\<rparr> =
     Inr (\<lparr>index_d = 2, index_xb = [[1, 0], [0, 1], [1, 1]]\<rparr>, []) \<and>
   load_index \<lparr>docs_dir = None, index_file = None, meta_file = Some []\<rparr> =
     Inl IndexOrMetaNotFound"
  using load_index_presence_only
      [of "\<lparr>docs_dir = None,
            index_file = Some \<lparr>index_d = 2, index_xb = [[1, 0], [0, 1], [1, 1]]\<rparr>,
            meta_file = Some []\<rparr>"]
    load_index_presence_only
      [of "\<lparr>docs_dir = None, index_file = None, meta_file = Some []\<rparr>"]
  by simp

text \<open>
  Claim C5 as it is written asks the loader to fail when the entry counts differ. An index
  of two rows and a metadata list of one record load without an error.
\<close>

theorem load_index_mismatch_counterexample:
  "ntotal \<lparr>index_d = 1, index_xb = [[1], [1]]\<rparr> \<noteq>
     length [\<lparr>source = ''a.txt'', chunk_idx = 0, meta_text = ''p''\<rparr>] \<and>
   load_index \<lparr>docs_dir = None,
       index_file = Some \<lparr>index_d = 1, index_xb = [[1], [1]]\<rparr>,
       meta_file = Some [\<lparr>source = ''a.txt'', chunk_idx = 0, meta_text = ''p''\<rparr>]\<rparr> =
     Inr (\<lparr>index_d = 1, index_xb = [[1], [1]]\<rparr>,
          [\<lparr>source = ''a.txt'', chunk_idx = 0, meta_text = ''p''\<rparr>])"
  by (simp add: load_index_def ntotal_def)

text \<open>
  Claim C7. When the index file or the metadata file is missing, the loader raises the
  not-found error and so does the query; the query then returns no response at all, so the
  failure is not a response with an empty list of results. Conversely, the query raises
  this error only when one of the two files is missing.
\<close>

theorem query_before_build_not_found:
  "(index_file fs = None \<or> meta_file fs = None \<longrightarrow>
      load_index fs = Inl IndexOrMetaNotFound \<and>
      query_index encode normalize_L2 search detect fs q k = Inl IndexOrMetaNotFound \<and>
      (\<forall>r. query_index encode normalize_L2 search detect fs q k \<noteq> Inr r)) \<and>
   (query_index encode normalize_L2 search detect fs q k = Inl IndexOrMetaNotFound \<longrightarrow>
      index_file fs = None \<or> meta_file fs = None)"
proof (intro conjI impI)
  assume a: "index_file fs = None \<or> meta_file fs = None"
  then show l: "load_index fs = Inl IndexOrMetaNotFound"
    by (auto simp: load_index_def split: option.splits)
  then show e: "query_index encode normalize_L2 search detect fs q k = Inl IndexOrMetaNotFound"
    by (simp add: query_index_def)
  then show "\<forall>r. query_index encode normalize_L2 search detect fs q k \<noteq> Inr r" by simp
next
  assume a: "query_index encode normalize_L2 search detect fs q k = Inl IndexOrMetaNotFound"
  show "index_file fs = None \<or> meta_file fs = None"
  proof (rule ccontr)
    assume "\<not> (index_file fs = None \<or> meta_file fs = None)"
    then obtain index meta where l: "load_index fs = Inr (index, meta)"
      by (auto simp: load_index_def)
    obtain D I where s: "search index (normalize_L2 (encode q)) k = (D, I)"
      by (cases "search index (normalize_L2 (encode q)) k")
    have "collect_results meta pairs acc \<noteq> Inl IndexOrMetaNotFound" for pairs acc
      by (induction meta pairs acc rule: collect_results.induct) simp_all
    with a l s show False
      by (auto simp: query_index_def split: sum.splits)
  qed
qed

theorem query_before_build_not_found_witness:
  "query_index (\<lambda>s. [1]) id (\<lambda>ix v k. ([], [])) (\<lambda>s. None)
      \<lparr>docs_dir = Some [], index_file = None, meta_file = None\<rparr> ''w'' 3 =
     Inl IndexOrMetaNotFound \<and>
   query_index (\<lambda>s. [1]) id (\<lambda>ix v k. ([], [])) (\<lambda>s. None)
      \<lparr>docs_dir = Some [], index_file = Some \<lparr>index_d = 1, index_xb = [[1]]\<rparr>,
       meta_file = None\<rparr> ''w'' 3 =
     Inl IndexOrMetaNotFound"
  using query_before_build_not_found
      [of "\<lparr>docs_dir = Some [], index_file = None, meta_file = None\<rparr>"
          "\<lambda>s. [1]" id "\<lambda>ix v k. ([], [])" "\<lambda>s. None" "''w''" 3]
    query_before_build_not_found
      [of "\<lparr>docs_dir = Some [], index_file = Some \<lparr>index_d = 1, index_xb = [[1]]\<rparr>,
            meta_file = None\<rparr>"
          "\<lambda>s. [1]" id "\<lambda>ix v k. ([], [])" "\<lambda>s. None" "''w''" 3]
  by simp

subsection \<open>The query\<close>

lemma sorted_scores_zip:
  assumes "sorted_wrt (\<ge>) (D :: real list)"
  shows "sorted_wrt (\<ge>) (map fst (filter P (zip D I)))"
proof -
  have "map fst (zip D I) = take (min (length D) (length I)) D"
    by (simp add: map_fst_zip_take)
  with assms have "sorted_wrt (\<ge>) (map fst (zip D I))"
    by (simp add: sorted_wrt_take)
  then have "sorted_wrt (\<lambda>a b. fst a \<ge> fst b) (zip D I)"
    by (simp add: sorted_wrt_map)
  then have "sorted_wrt (\<lambda>a b. fst a \<ge> fst b) (filter P (zip D I))"
    by (rule sorted_wrt_filter)
  then show ?thesis by (simp add: sorted_wrt_map)
qed

lemma collect_results_eq:
  assumes "\<forall>(s, idx)\<in>set pairs. idx < int (length meta)"
  shows "collect_results meta pairs acc =
     Inr (acc @ map (\<lambda>(s, idx). \<lparr>source = source (meta ! nat idx),
                                  chunk_idx = chunk_idx (meta ! nat idx),
                                  meta_text = meta_text (meta ! nat idx),
                                  score = s\<rparr>)
                    (filter (\<lambda>(s, idx). 0 \<le> idx) pairs))"
  using assms
proof (induction meta pairs acc rule: collect_results.induct)
  case (1 meta results)
  show ?case by simp
next
  case (2 meta s idx rest results)
  show ?case
  proof (cases "idx < 0")
    case True
    with 2 show ?thesis by simp
  next
    case False
    moreover from "2.prems" have "idx < int (length meta)" by simp
    ultimately show ?thesis using "2.IH"(2) "2.prems" by simp
  qed
qed

text \<open>
  Claim C3, as the code has it. Let the loader return an index and its metadata, and let
  the engine return, for the normalised embedding of the query and \<open>k\<close>, at most \<open>k\<close> entry
  indices with scores in non-increasing order, every entry index being below the number of
  metadata records. Then the query returns a response. Its results are the returned pairs
  without those of a negative entry index, in the order of the engine; each carries the
  source, the chunk index and the text of the metadata record at its entry index, and its
  score; there are at most \<open>k\<close> results, in non-increasing order of score.
\<close>

theorem query_index_results:
  assumes "load_index fs = Inr (index, meta)"
    and "search index (normalize_L2 (encode q)) k = (D, I)"
    and "length I \<le> nat k"
    and "sorted_wrt (\<ge>) D"
    and "\<forall>idx\<in>set I. idx < int (length meta)"
  shows "\<exists>r. query_index encode normalize_L2 search detect fs q k = Inr r \<and>
           query r = q \<and>
           results r = map (\<lambda>(s, idx). \<lparr>source = source (meta ! nat idx),
                                         chunk_idx = chunk_idx (meta ! nat idx),
                                         meta_text = meta_text (meta ! nat idx),
                                         score = s\<rparr>)
                           (filter (\<lambda>(s, idx). 0 \<le> idx) (zip D I)) \<and>
           length (results r) \<le> nat k \<and>
           sorted_wrt (\<ge>) (map score (results r))"
proof -
  let ?hits = "filter (\<lambda>(s, idx). 0 \<le> idx) (zip D I)"
  let ?rs = "map (\<lambda>(s, idx). \<lparr>source = source (meta ! nat idx),
                                chunk_idx = chunk_idx (meta ! nat idx),
                                meta_text = meta_text (meta ! nat idx),
                                score = s\<rparr>) ?hits"
  have "\<forall>(s, idx)\<in>set (zip D I). idx < int (length meta)"
    using assms(5) by (auto dest: set_zip_rightD)
  then have c: "collect_results meta (zip D I) [] = Inr ?rs"
    using collect_results_eq [of "zip D I" meta "[]"] by simp
  have q: "query_index encode normalize_L2 search detect fs q k =
      Inr \<lparr>query = q, lang = safe_detect_lang detect q, results = ?rs\<rparr>"
    by (simp add: query_index_def assms(1,2) c)
  have "length ?hits \<le> length (zip D I)" by (rule length_filter_le)
  also have "\<dots> \<le> length I" by simp
  finally have n: "length ?rs \<le> nat k" using assms(3) by simp
  have ms: "map score ?rs = map fst ?hits"
    by (simp add: case_prod_unfold comp_def)
  have "sorted_wrt (\<ge>) (map fst ?hits)"
    using assms(4) by (rule sorted_scores_zip)
  then have s: "sorted_wrt (\<ge>) (map score ?rs)"
    by (simp only: ms)
  from q n s show ?thesis by simp
qed

theorem query_index_results_witness:
  "query_index (\<lambda>s. [1]) id (\<lambda>ix v k. ([9/10, 1/2, -1], [1, 0, -1])) (\<lambda>s. None)
      \<lparr>docs_dir = None,
       index_file = Some \<lparr>index_d = 1, index_xb = [[1], [1]]\<rparr>,
       meta_file = Some [\<lparr>source = ''a.txt'', chunk_idx = 0, meta_text = ''p''\<rparr>,
                         \<lparr>source = ''a.txt'', chunk_idx = 1, meta_text = ''q''\<rparr>]\<rparr> ''w'' 3 =
   Inr \<lparr>query = ''w'', lang = ''unknown'',
        results = [\<lparr>source = ''a.txt'', chunk_idx = 1, meta_text = ''q'', score = 9/10\<rparr>,
                   \<lparr>source = ''a.txt'', chunk_idx = 0, meta_text = ''p'', score = 1/2\<rparr>]\<rparr>"
proof -
  let ?ix = "\<lparr>index_d = 1, index_xb = [[1], [1 :: real]]\<rparr>"
  let ?meta = "[\<lparr>source = ''a.txt'', chunk_idx = 0, meta_text = ''p''\<rparr>,
                \<lparr>source = ''a.txt'', chunk_idx = 1, meta_text = ''q''\<rparr>]"
  let ?fs = "\<lparr>docs_dir = None, index_file = Some ?ix, meta_file = Some ?meta\<rparr>"
  let ?search = "\<lambda>(ix :: faiss_index) (v :: real list) (k :: int). ([9/10, 1/2, -1 :: real], [1, 0, -1 :: int])"
  have "\<exists>r. query_index (\<lambda>s. [1]) id ?search (\<lambda>s. None) ?fs ''w'' 3 = Inr r \<and>
           query r = ''w'' \<and>
           results r = map (\<lambda>(s, idx). \<lparr>source = source (?meta ! nat idx),
                                         chunk_idx = chunk_idx (?meta ! nat idx),
                                         meta_text = meta_text (?meta ! nat idx),
                                         score = s\<rparr>)
                           (filter (\<lambda>(s, idx). 0 \<le> idx) (zip [9/10, 1/2, -1 :: real] [1, 0, -1 :: int])) \<and>
           length (results r) \<le> nat 3 \<and>
           sorted_wrt (\<ge>) (map score (results r))"
    by (rule query_index_results [where index = ?ix]) (simp_all add: load_index_def)
  then obtain r where r: "query_index (\<lambda>s. [1]) id ?search (\<lambda>s. None) ?fs ''w'' 3 = Inr r"
    "results r = [\<lparr>source = ''a.txt'', chunk_idx = 1, meta_text = ''q'', score = 9/10\<rparr>,
                   \<lparr>source = ''a.txt'', chunk_idx = 0, meta_text = ''p'', score = 1/2\<rparr>]"
    by auto
  moreover from r(1) have "query r = ''w''" "lang r = ''unknown''"
    by (auto simp: query_index_def load_index_def safe_detect_lang_def split: sum.splits)
  ultimately show ?thesis by simp
qed

text \<open>
  Claim C3 as it is written speaks of every loaded index. The loader accepts an index of
  two rows with a metadata list of one record; when the engine then returns the entry
  index 1, the query raises the index error of \<^verbatim>\<open>meta[idx]\<close> and returns no results.
\<close>

theorem query_index_raises_counterexample:
  "query_index (\<lambda>s. [1]) id (\<lambda>ix v k. ([9/10, 1/2], [1, 0])) (\<lambda>s. None)
      \<lparr>docs_dir = None,
       index_file = Some \<lparr>index_d = 1, index_xb = [[1], [1]]\<rparr>,
       meta_file = Some [\<lparr>source = ''a.txt'', chunk_idx = 0, meta_text = ''p''\<rparr>]\<rparr> ''w'' 2 =
   Inl MetaIndexError"
  by (simp add: query_index_def load_index_def)

end
